theory Spec2Isabelle
  imports Complex_Main
begin

section \<open>Conventions of the embedding\<close>

text \<open>
  The optimiser core of the repository (\<^verbatim>\<open>src/optim\<close>) is numpy code over arrays of
  floating-point numbers. It is embedded as follows.
  \<^item> A one-dimensional numpy array is a \<open>real list\<close>; an elementwise operation is
    \<open>map\<close> or \<open>map2\<close>. The arrays of one call have the same shape in the program
    (one entry per route segment); the theorems state the shapes they need.
  \<^item> A Python float is a \<open>real\<close>: arithmetic is exact. Rounding, overflow to
    \<open>inf\<close> and \<open>nan\<close> are outside the model. Where the program would divide by
    zero (numpy yields \<open>inf\<close> or \<open>nan\<close> and goes on), HOL's \<open>x / 0 = 0\<close> is not
    what the program does: no concrete input evaluated below divides by zero, and the
    winding resistance, the one divisor inside the loop, stays positive
    (\<open>winding_resistance_positive\<close>).
  \<^item> An exception is a value \<open>Inl e\<close> of a sum type, a normal return is \<open>Inr r\<close>.
  \<^item> The \<^verbatim>\<open>while True\<close> loop of the power model is a partial function into
    \<open>option\<close>: \<open>None\<close> means that the loop never leaves.
\<close>

datatype py_error = IndexError | ValueError

section \<open>config.py and state.py\<close>

definition BatteryCapacity :: real where "BatteryCapacity = 3055"
definition DeepDischargeCap :: real where "DeepDischargeCap = 0.2"
definition R_Out :: real where "R_Out = 0.2785"
definition Mass :: real where "Mass = 290"
definition ZeroSpeedCrr :: real where "ZeroSpeedCrr = 0.0045"
definition CDA :: real where "CDA = 0.12"
definition PanelArea :: real where "PanelArea = 4.9"
definition PanelEfficiency :: real where "PanelEfficiency = 0.21"
definition BusVoltage :: real where "BusVoltage = 4.2 * 38"
definition AirDensity :: real where "AirDensity = 1.192"
definition GravityAcc :: real where "GravityAcc = 9.81"
definition Ta :: real where "Ta = 295"
definition MaxVelocity :: real where "MaxVelocity = 35"
definition MaxCurrent :: real where "MaxCurrent = 12.3"

definition InitialGuessVelocity :: real where "InitialGuessVelocity = 32"
definition StartTime :: real where "StartTime = 9 * 3600"
definition InitialBatteryCapacity :: real where
  "InitialBatteryCapacity = BatteryCapacity * 1"

section \<open>numpy primitives\<close>

text \<open>\<^verbatim>\<open>a.cumsum()\<close>: the running sums of an array.\<close>

fun cumsum_from :: "real \<Rightarrow> real list \<Rightarrow> real list" where
  "cumsum_from a [] = []"
| "cumsum_from a (x # xs) = (a + x) # cumsum_from (a + x) xs"

definition cumsum :: "real list \<Rightarrow> real list" where
  "cumsum xs = cumsum_from 0 xs"



text \<open>
  \<^verbatim>\<open>a[idx]\<close> for an integer index: an index in \<open>[-n, 0)\<close> counts from the end of the
  array, an index outside \<open>[-n, n)\<close> raises IndexError. With an array of indices the
  result is the array of the elements, and one bad index fails the whole lookup.
\<close>

definition np_get :: "real list \<Rightarrow> int \<Rightarrow> py_error + real" where
  "np_get xs i =
     (let n = int (length xs)
      in if 0 \<le> i \<and> i < n then Inr (xs ! nat i)
         else if - n \<le> i \<and> i < 0 then Inr (xs ! nat (n + i))
         else Inl IndexError)"

fun np_take :: "real list \<Rightarrow> int list \<Rightarrow> py_error + real list" where
  "np_take xs [] = Inr []"
| "np_take xs (i # is) =
     (case np_get xs i of
        Inl e \<Rightarrow> Inl e
      | Inr y \<Rightarrow> (case np_take xs is of Inl e \<Rightarrow> Inl e | Inr ys \<Rightarrow> Inr (y # ys)))"

section \<open>constraints.py: bounds and objective\<close>

definition SafeBatteryLevel :: real where
  "SafeBatteryLevel = BatteryCapacity * DeepDischargeCap"


definition EPSILON :: real where
  "EPSILON = 1 / 10 ^ 8"

text \<open>
  \<^verbatim>\<open>[(0, 0)] + [(0.01, MaxVelocity)]*(N-2) + [(0, 0)]\<close>: a Python list repeated a
  negative number of times is empty.
\<close>

definition get_bounds :: "int \<Rightarrow> (real \<times> real) list" where
  "get_bounds N = [(0, 0)] @ replicate (nat (N - 2)) (0.01, MaxVelocity) @ [(0, 0)]"

text \<open>
  \<^verbatim>\<open>np.sum(2 * dx / (velocity_profile[:-1] + velocity_profile[1:] + EPSILON))\<close>
\<close>

definition objective :: "real list \<Rightarrow> real list \<Rightarrow> real" where
  "objective velocity_profile dx =
     sum_list (map2 (\<lambda>d s. 2 * d / s) dx
       (map (\<lambda>s. s + EPSILON) (map2 (+) (butlast velocity_profile) (tl velocity_profile))))"

section \<open>main.py: the initial guess of the driver\<close>

text \<open>
  The concatenation of \<^verbatim>\<open>[0]\<close>, \<^verbatim>\<open>np.ones(N_V-2) * state.InitialGuessVelocity\<close>
  and \<^verbatim>\<open>[0]\<close>; \<^verbatim>\<open>np.ones\<close> raises ValueError for a negative length.
\<close>

definition initial_guess :: "int \<Rightarrow> py_error + real list" where
  "initial_guess N_V =
     (if N_V - 2 < 0 then Inl ValueError
      else Inr ([0] @ map (\<lambda>one. one * InitialGuessVelocity) (replicate (nat (N_V - 2)) 1) @ [0]))"

text \<open>
  The first two statements of \<^verbatim>\<open>run_optimise\<close>: the waypoint count is
  \<^verbatim>\<open>len(dx) + 1\<close>, and the solver gets the initial guess and the bounds for it.
\<close>

definition run_optimise_setup :: "real list \<Rightarrow> py_error + (real list \<times> (real \<times> real) list)" where
  "run_optimise_setup dx =
     (let N_V = int (length dx) + 1
      in case initial_guess N_V of
           Inl e \<Rightarrow> Inl e
         | Inr velocity_profile \<Rightarrow> Inr (velocity_profile, get_bounds N_V))"

section \<open>weather.py: the environment lookups\<close>

text \<open>
  The module reads the file \<^verbatim>\<open>sol&wind.csv\<close>, which is not part of the sources, into
  three arrays. They are a parameter of the model.
\<close>

record env_series =
  ghi :: "real list"
  wind_speed :: "real list"
  wind_direction :: "real list"

definition STEP :: real where "STEP = 5"

definition NET_PANEL_FACTOR :: real where
  "NET_PANEL_FACTOR = PanelArea * PanelEfficiency"

definition INIT_TIME :: real where
  "INIT_TIME = StartTime / 60 - 8 * 60"

text \<open>\<^verbatim>\<open>np.floor_divide(input_minutes + INIT_TIME, STEP).astype(int)\<close>\<close>

definition bucket :: "real \<Rightarrow> int" where
  "bucket m = \<lfloor>(m + INIT_TIME) / STEP\<rfloor>"

definition get_solar_power :: "env_series \<Rightarrow> real list \<Rightarrow> py_error + real list" where
  "get_solar_power df input_minutes =
     (let idx = map bucket input_minutes
      in case np_take (ghi df) idx of
           Inl e \<Rightarrow> Inl e
         | Inr g \<Rightarrow> Inr (map (\<lambda>x. x * NET_PANEL_FACTOR) g))"

definition get_wind_data :: "env_series \<Rightarrow> real list \<Rightarrow> py_error + (real list \<times> real list)" where
  "get_wind_data df input_minutes =
     (let idx = map bucket input_minutes
      in case np_take (wind_speed df) idx of
           Inl e \<Rightarrow> Inl e
         | Inr ws \<Rightarrow>
             (case np_take (wind_direction df) idx of
                Inl e \<Rightarrow> Inl e
              | Inr wd \<Rightarrow> Inr (ws, wd)))"

section \<open>car.py: the power model\<close>

definition frictional_tou :: real where
  "frictional_tou = R_Out * Mass * GravityAcc * ZeroSpeedCrr"

definition drag_coeff :: real where
  "drag_coeff = 0.5 * CDA * AirDensity * (R_Out ^ 3)"

definition drag_coeff_wR2 :: real where
  "drag_coeff_wR2 = drag_coeff / (R_Out ^ 2)"

definition slope_coeff :: real where
  "slope_coeff = Mass * GravityAcc"

definition windage_losses_coeff_wR2 :: real where
  "windage_losses_coeff_wR2 = (170.4 * (1 / 10 ^ 6)) / (R_Out ^ 2)"

text \<open>
  Lines 19 to 24 of \<^verbatim>\<open>calculate_power\<close>: the wheel torque. The arguments
  \<^verbatim>\<open>dir\<close>, \<^verbatim>\<open>ws\<close> and \<^verbatim>\<open>wd\<close> occur in a comment only.
\<close>

definition wheel_torque :: "real list \<Rightarrow> real list \<Rightarrow> real list" where
  "wheel_torque speed slope =
     (let speed2 = map (\<lambda>s. s ^ 2) speed;
          drag_tou = map (\<lambda>s2. drag_coeff_wR2 * s2) speed2
      in map2 (\<lambda>sl d. frictional_tou * cos sl + d) slope drag_tou)"

text \<open>
  One pass through the body of the \<^verbatim>\<open>while True\<close> loop, up to the test: the copper
  losses, the eddy current losses, the new temperature and the convergence mask, from
  the torque, the squared speed and the current temperature of every segment.
\<close>

definition winding_pass ::
  "real list \<Rightarrow> real list \<Rightarrow> real list \<Rightarrow> real list \<times> real list \<times> real list \<times> bool list" where
  "winding_pass tou speed2 Tw_i =
     (let B = map (\<lambda>t. 1.6716 - 0.0006 * (Ta + t)) Tw_i;
          i = map2 (\<lambda>b t. 0.561 * b * t) B tou;
          resistance = map (\<lambda>t. 0.00022425 * t - 0.00820525) Tw_i;
          Pc = map2 (\<lambda>i r. 3 * i ^ 2 * r) i resistance;
          Pe = map2 (\<lambda>(b, r) s2. (9.602 * (1 / 10 ^ 6) * ((b / R_Out) ^ 2) / r) * s2)
                 (zip B resistance) speed2;
          Tw = map2 (\<lambda>pc pe. 0.455 * (pc + pe) + Ta) Pc Pe;
          cond = map2 (\<lambda>tw twi. \<bar>tw - twi\<bar> < 0.001) Tw Tw_i
      in (Pc, Pe, Tw, cond))"

text \<open>\<^verbatim>\<open>np.where(cond, Tw_i, Tw)\<close>\<close>

definition np_where :: "bool list \<Rightarrow> real list \<Rightarrow> real list \<Rightarrow> real list" where
  "np_where cond xs ys = map2 (\<lambda>c (x, y). if c then x else y) cond (zip xs ys)"

text \<open>
  The loop itself. It has no counter: it is left through \<^verbatim>\<open>break\<close> when
  \<^verbatim>\<open>np.all(cond)\<close> holds, with the values of \<^verbatim>\<open>Tw_i\<close>, \<^verbatim>\<open>Pc\<close> and
  \<^verbatim>\<open>Pe\<close> of that pass, and not otherwise.
\<close>

partial_function (option) winding_loop ::
  "real list \<Rightarrow> real list \<Rightarrow> real list \<Rightarrow> (real list \<times> real list \<times> real list) option" where
  "winding_loop tou speed2 Tw_i =
     (case winding_pass tou speed2 Tw_i of
        (Pc, Pe, Tw, cond) \<Rightarrow>
          if list_all (\<lambda>c. c) cond then Some (Tw_i, Pc, Pe)
          else winding_loop tou speed2 (np_where cond Tw_i Tw))"

text \<open>
  Names for the parts of one pass, for the statements about the loop: whether the test
  \<^verbatim>\<open>np.all(cond)\<close> succeeds at a temperature vector, the vector the loop goes on with
  when it does not, and what the loop leaves with when it does.
\<close>

definition all_converged :: "real list \<Rightarrow> real list \<Rightarrow> real list \<Rightarrow> bool" where
  "all_converged tou speed2 Tw_i =
     (case winding_pass tou speed2 Tw_i of (Pc, Pe, Tw, cond) \<Rightarrow> list_all (\<lambda>c. c) cond)"

definition winding_next :: "real list \<Rightarrow> real list \<Rightarrow> real list \<Rightarrow> real list" where
  "winding_next tou speed2 Tw_i =
     (case winding_pass tou speed2 Tw_i of (Pc, Pe, Tw, cond) \<Rightarrow> np_where cond Tw_i Tw)"

definition winding_exit ::
  "real list \<Rightarrow> real list \<Rightarrow> real list \<Rightarrow> real list \<times> real list \<times> real list" where
  "winding_exit tou speed2 Tw_i =
     (case winding_pass tou speed2 Tw_i of (Pc, Pe, Tw, cond) \<Rightarrow> (Tw_i, Pc, Pe))"

text \<open>
  The new temperature \<^verbatim>\<open>Tw\<close> of a single segment, as one pass computes it from the
  torque, the squared speed and the current temperature of that segment.
\<close>

definition Tw_of :: "real \<Rightarrow> real \<Rightarrow> real \<Rightarrow> real" where
  "Tw_of tou s2 t =
     0.455 * (3 * (0.561 * (1.6716 - 0.0006 * (Ta + t)) * tou) ^ 2 * (0.00022425 * t - 0.00820525)
       + (9.602 * (1 / 10 ^ 6) * (((1.6716 - 0.0006 * (Ta + t)) / R_Out) ^ 2)
            / (0.00022425 * t - 0.00820525)) * s2) + Ta"

text \<open>
  \<^verbatim>\<open>calculate_power\<close>. The temperature starts as the scalar \<^verbatim>\<open>Ta\<close>, which numpy
  broadcasts over the segments. The result is \<open>None\<close> when the loop is never left.
\<close>

definition calculate_power ::
  "real list \<Rightarrow> real list \<Rightarrow> real list \<Rightarrow> real list \<Rightarrow> real list \<Rightarrow> real list
     \<Rightarrow> (real list \<times> real list) option" where
  "calculate_power speed acceleration slope dir ws wd =
     (let speed2 = map (\<lambda>s. s ^ 2) speed;
          tou = wheel_torque speed slope
      in case winding_loop tou speed2 (replicate (length speed) Ta) of
           None \<Rightarrow> None
         | Some (Tw_i, Pc, Pe) \<Rightarrow>
             (let P_out = map2 (\<lambda>t s. t * s / R_Out) tou speed;
                  Pw = map (\<lambda>s2. s2 * windage_losses_coeff_wR2) speed2;
                  P_acc = map2 (\<lambda>(a, sl) s. (Mass * a + slope_coeff * sin sl) * s)
                            (zip acceleration slope) speed;
                  P_net = map2 (+) P_out (map2 (+) (map2 (+) (map2 (+) Pw Pc) Pe) P_acc)
              in Some (map (max 0) P_net, P_out)))"

section \<open>constraints.py: the feasibility evaluation\<close>

text \<open>
  The first statements of \<^verbatim>\<open>battery_acc_constraint_func\<close>, which
  \<^verbatim>\<open>extract_profiles\<close> repeats word for word: the average speed, the time and the
  acceleration of every segment, and the minutes elapsed at its end.
\<close>

definition segment_kinematics ::
  "real list \<Rightarrow> real list \<Rightarrow> real list \<times> real list \<times> real list \<times> real list" where
  "segment_kinematics v dx =
     (let start_speeds = butlast v;
          stop_speeds = tl v;
          avg_speed = map2 (\<lambda>a b. (a + b) / 2) start_speeds stop_speeds;
          dt = map2 (\<lambda>d s. d / (s + EPSILON)) dx avg_speed;
          acceleration = map2 (\<lambda>(b, a) t. (b - a) / t) (zip stop_speeds start_speeds) dt;
          minutes = map (\<lambda>c. c / 60) (cumsum dt)
      in (avg_speed, dt, acceleration, minutes))"

text \<open>
  \<^verbatim>\<open>energy_consumption = ((P - SolP) * dt).cumsum() / 3600\<close> and
  \<^verbatim>\<open>battery_profile = state.InitialBatteryCapacity - energy_consumption - SafeBatteryLevel\<close>
\<close>

definition constraint_battery_profile :: "real list \<Rightarrow> real list \<Rightarrow> real list \<Rightarrow> real list" where
  "constraint_battery_profile P SolP dt =
     (let energy_consumption =
            map (\<lambda>c. c / 3600) (cumsum (map2 (*) (map2 (-) P SolP) dt))
      in map (\<lambda>e. InitialBatteryCapacity - e - SafeBatteryLevel) energy_consumption)"



section \<open>profiles.py: the reporter\<close>

text \<open>
  Lines 26 to 31 of \<^verbatim>\<open>extract_profiles\<close>: the consumption and the gain of every
  segment, and the battery level after it, in Wh.
\<close>

definition reporter_energy ::
  "real list \<Rightarrow> real list \<Rightarrow> real list \<Rightarrow> real list \<times> real list \<times> real list" where
  "reporter_energy P SolP dt =
     (let energy_consumption = map2 (\<lambda>p t. p * t / 3600) P dt;
          energy_gain = map2 (\<lambda>s t. s * t / 3600) SolP dt;
          net_energy_profile = map2 (-) (cumsum energy_consumption) (cumsum energy_gain);
          battery_profile = map (\<lambda>e. InitialBatteryCapacity - e) net_energy_profile
      in (energy_consumption, energy_gain, battery_profile))"

definition reporter_battery_levels :: "real list \<Rightarrow> real list \<Rightarrow> real list \<Rightarrow> real list" where
  "reporter_battery_levels P SolP dt = snd (snd (reporter_energy P SolP dt))"

text \<open>
  The telemetry table. An entry \<^verbatim>\<open>np.nan\<close> is \<open>None\<close>.
\<close>

record telemetry =
  distances :: "real list"
  speeds :: "real list"
  accelerations :: "real option list"
  battery_percent :: "real list"
  consumptions :: "real option list"
  gains :: "real option list"
  elapsed :: "real list"

definition extract_profiles ::
  "env_series \<Rightarrow> real list \<Rightarrow> real list \<Rightarrow> real list \<Rightarrow> real list
     \<Rightarrow> (py_error + telemetry) option" where
  "extract_profiles df v dx ds dir =
     (case segment_kinematics v dx of
        (avg_speed, dt, acceleration, minutes) \<Rightarrow>
          (case get_wind_data df minutes of
             Inl e \<Rightarrow> Some (Inl e)
           | Inr (ws, wd) \<Rightarrow>
               (case calculate_power avg_speed acceleration ds dir ws wd of
                  None \<Rightarrow> None
                | Some (P, P_out) \<Rightarrow>
                    (case get_solar_power df minutes of
                       Inl e \<Rightarrow> Some (Inl e)
                     | Inr SolP \<Rightarrow>
                         (case reporter_energy P SolP dt of
                            (energy_consumption, energy_gain, battery_profile) \<Rightarrow>
                              Some (Inr \<lparr>
                                distances = 0 # dx,
                                speeds = v,
                                accelerations = None # map Some acceleration,
                                battery_percent =
                                  map (\<lambda>b. b * 100 / BatteryCapacity)
                                    (InitialBatteryCapacity # battery_profile),
                                consumptions = None # map Some energy_consumption,
                                gains = None # map Some energy_gain,
                                elapsed = 0 # cumsum dt \<rparr>))))))"

section \<open>Auxiliary facts\<close>

lemmas config_defs =
  BatteryCapacity_def DeepDischargeCap_def R_Out_def Mass_def ZeroSpeedCrr_def CDA_def
  PanelArea_def PanelEfficiency_def BusVoltage_def AirDensity_def GravityAcc_def Ta_def
  MaxVelocity_def MaxCurrent_def InitialGuessVelocity_def StartTime_def
  InitialBatteryCapacity_def

lemma np_take_ok:
  "(\<forall>i\<in>set is. - int (length xs) \<le> i \<and> i < int (length xs)) \<Longrightarrow>
     np_take xs is =
       Inr (map (\<lambda>i. xs ! nat (if i < 0 then int (length xs) + i else i)) is)"
  by (induction "is") (auto simp: np_get_def Let_def)

lemma np_take_fail:
  "(\<exists>i\<in>set is. i < - int (length xs) \<or> int (length xs) \<le> i) \<Longrightarrow>
     np_take xs is = Inl IndexError"
proof (induction "is")
  case Nil
  then show ?case by simp
next
  case (Cons i "is")
  show ?case
  proof (cases "i < - int (length xs) \<or> int (length xs) \<le> i")
    case True
    then show ?thesis by (auto simp: np_get_def Let_def)
  next
    case False
    with Cons.prems have "\<exists>i\<in>set is. i < - int (length xs) \<or> int (length xs) \<le> i"
      by auto
    then have "np_take xs is = Inl IndexError" by (rule Cons.IH)
    then show ?thesis using False by (auto simp: np_get_def Let_def split: sum.splits)
  qed
qed

lemma np_take_length: "np_take xs is = Inr ys \<Longrightarrow> length ys = length is"
  by (induction "is" arbitrary: ys) (auto split: sum.splits)

lemma INIT_TIME_val: "INIT_TIME = 60"
  by (simp add: INIT_TIME_def StartTime_def)

lemma cumsum_from_diff:
  assumes "length P = length dt" "length S = length dt"
  shows "map2 (-) (cumsum_from a (map2 (\<lambda>p t. p * t / 3600) P dt))
                  (cumsum_from b (map2 (\<lambda>s t. s * t / 3600) S dt)) =
         map (\<lambda>c. c / 3600) (cumsum_from ((a - b) * 3600) (map2 (*) (map2 (-) P S) dt))"
proof -
  have "length P = length dt" "length dt = length S"
    using assms by simp_all
  then show ?thesis
proof (induction P dt S arbitrary: a b rule: list_induct3)
  case Nil
  then show ?case by simp
next
  case (Cons p P t dt s S)
  have eq: "(a + p * t / 3600 - (b + s * t / 3600)) * 3600 = (a - b) * 3600 + (p - s) * t"
    by (simp add: algebra_simps)
  have hd: "a + p * t / 3600 - (b + s * t / 3600) = ((a - b) * 3600 + (p - s) * t) / 3600"
    by (simp add: field_simps)
  note IH = Cons.IH [of "a + p * t / 3600" "b + s * t / 3600", unfolded eq]
  show ?case
    by (simp only: zip_Cons_Cons list.map cumsum_from.simps split_conv IH hd)
qed
qed

lemma objective_as_sum:
  assumes "length v = Suc (length dx)"
  shows "objective v dx = (\<Sum>i<length dx. 2 * dx ! i / (v ! i + v ! (i + 1) + EPSILON))"
proof -
  let ?den = "map (\<lambda>s. s + EPSILON) (map2 (+) (butlast v) (tl v))"
  let ?terms = "map2 (\<lambda>d s. 2 * d / s) dx ?den"
  have len: "length ?terms = length dx"
    using assms by simp
  have nth: "?terms ! i = 2 * dx ! i / (v ! i + v ! (i + 1) + EPSILON)" if "i < length dx" for i
    using that assms by (simp add: nth_butlast nth_tl)
  have "objective v dx = (\<Sum>i = 0..<length ?terms. ?terms ! i)"
    unfolding objective_def by (rule sum_list_sum_nth)
  also have "\<dots> = (\<Sum>i<length dx. ?terms ! i)"
    unfolding len by (simp add: atLeast0LessThan)
  also have "\<dots> = (\<Sum>i<length dx. 2 * dx ! i / (v ! i + v ! (i + 1) + EPSILON))"
    by (rule sum.cong, rule refl, rule nth, simp)
  finally show ?thesis .
qed

lemma winding_loop_unfold:
  "winding_loop tou speed2 Tw_i =
     (if all_converged tou speed2 Tw_i then Some (winding_exit tou speed2 Tw_i)
      else winding_loop tou speed2 (winding_next tou speed2 Tw_i))"
  by (subst winding_loop.simps)
     (simp add: all_converged_def winding_exit_def winding_next_def split: prod.splits)

lemma winding_loop_first:
  assumes "all_converged tou speed2 ((winding_next tou speed2 ^^ k) T)"
    and "\<forall>i<k. \<not> all_converged tou speed2 ((winding_next tou speed2 ^^ i) T)"
  shows "winding_loop tou speed2 T = Some (winding_exit tou speed2 ((winding_next tou speed2 ^^ k) T))"
  using assms
proof (induction k arbitrary: T)
  case 0
  then show ?case by (subst winding_loop_unfold) simp
next
  case (Suc k)
  have not0: "\<not> all_converged tou speed2 T"
    using Suc.prems(2) by (metis funpow_0 zero_less_Suc)
  have a: "all_converged tou speed2 ((winding_next tou speed2 ^^ k) (winding_next tou speed2 T))"
    using Suc.prems(1) by (simp add: funpow_swap1)
  have b: "\<forall>i<k. \<not> all_converged tou speed2
             ((winding_next tou speed2 ^^ i) (winding_next tou speed2 T))"
  proof (intro allI impI)
    fix i assume "i < k"
    then have "\<not> all_converged tou speed2 ((winding_next tou speed2 ^^ Suc i) T)"
      using Suc.prems(2) by (meson Suc_less_eq)
    then show "\<not> all_converged tou speed2
                  ((winding_next tou speed2 ^^ i) (winding_next tou speed2 T))"
      by (simp add: funpow_swap1)
  qed
  have "winding_loop tou speed2 T = winding_loop tou speed2 (winding_next tou speed2 T)"
    using not0 by (subst winding_loop_unfold) simp
  also have "\<dots> = Some (winding_exit tou speed2
                 ((winding_next tou speed2 ^^ k) (winding_next tou speed2 T)))"
    by (rule Suc.IH [OF a b])
  finally show ?case by (simp add: funpow_swap1)
qed

lemma winding_loop_Some_converges:
  assumes "winding_loop tou speed2 T = Some y"
  shows "\<exists>k. all_converged tou speed2 ((winding_next tou speed2 ^^ k) T)"
proof (rule winding_loop.raw_induct
    [where P = "\<lambda>tou speed2 T y. \<exists>k. all_converged tou speed2 ((winding_next tou speed2 ^^ k) T)",
      OF _ assms])
  fix loop :: "real list \<Rightarrow> real list \<Rightarrow> real list \<Rightarrow> (real list \<times> real list \<times> real list) option"
  fix tou speed2 T y
  assume IH: "\<And>tou speed2 T y. loop tou speed2 T = Some y \<Longrightarrow>
                \<exists>k. all_converged tou speed2 ((winding_next tou speed2 ^^ k) T)"
    and body: "(case winding_pass tou speed2 T of
                 (Pc, Pe, Tw, cond) \<Rightarrow>
                   if list_all (\<lambda>c. c) cond then Some (T, Pc, Pe)
                   else loop tou speed2 (np_where cond T Tw)) = Some y"
  show "\<exists>k. all_converged tou speed2 ((winding_next tou speed2 ^^ k) T)"
  proof (cases "all_converged tou speed2 T")
    case True
    then have "all_converged tou speed2 ((winding_next tou speed2 ^^ 0) T)" by simp
    then show ?thesis by blast
  next
    case False
    with body have "loop tou speed2 (winding_next tou speed2 T) = Some y"
      by (simp add: all_converged_def winding_next_def split: prod.splits)
    then obtain k where "all_converged tou speed2
        ((winding_next tou speed2 ^^ k) (winding_next tou speed2 T))"
      using IH by blast
    then have "all_converged tou speed2 ((winding_next tou speed2 ^^ Suc k) T)"
      by (simp add: funpow_swap1)
    then show ?thesis by blast
  qed
qed

lemma winding_loop_None:
  assumes "\<forall>k. \<not> all_converged tou speed2 ((winding_next tou speed2 ^^ k) T)"
  shows "winding_loop tou speed2 T = None"
  using assms winding_loop_Some_converges by (cases "winding_loop tou speed2 T") blast+

lemma frictional_tou_val: "frictional_tou = 142614837 / 40000000"
  by (simp add: frictional_tou_def config_defs)

lemma drag_coeff_wR2_val: "drag_coeff_wR2 = 248979 / 12500000"
  by (simp add: drag_coeff_wR2_def drag_coeff_def config_defs power2_eq_square power3_eq_cube)

lemma all_converged_single:
  "all_converged [tou] [s2] [t] = (\<bar>Tw_of tou s2 t - t\<bar> < 0.001)"
  by (simp add: all_converged_def winding_pass_def Let_def Tw_of_def)

lemma winding_next_single:
  "winding_next [tou] [s2] [t] = [if \<bar>Tw_of tou s2 t - t\<bar> < 0.001 then t else Tw_of tou s2 t]"
  by (simp add: winding_next_def winding_pass_def np_where_def Let_def Tw_of_def)

lemma winding_resistance_positive:
  fixes t tou s2 :: real
  assumes "Ta \<le> t" and "0 \<le> s2"
  shows "0 < 0.00022425 * t - 0.00820525 \<and> Ta \<le> Tw_of tou s2 t"
proof -
  define R where "R = 0.00022425 * t - 0.00820525"
  define B where "B = 1.6716 - 0.0006 * (Ta + t)"
  have R: "0 < R" using assms(1) by (simp add: R_def Ta_def field_simps)
  have Pc: "0 \<le> 3 * (0.561 * B * tou) ^ 2 * R"
    using R by simp
  have Pe: "0 \<le> (9.602 * (1 / 10 ^ 6) * ((B / R_Out) ^ 2) / R) * s2"
    using R assms(2) by simp
  have "Tw_of tou s2 t =
          0.455 * (3 * (0.561 * B * tou) ^ 2 * R
                   + (9.602 * (1 / 10 ^ 6) * ((B / R_Out) ^ 2) / R) * s2) + Ta"
    by (simp only: Tw_of_def B_def R_def)
  then have "Ta \<le> Tw_of tou s2 t"
    using Pc Pe by simp
  then show ?thesis using R by (simp add: R_def)
qed

lemma hot_pass:
  fixes t tou s2 :: real
  assumes t: "10000 \<le> t" and tou: "800 \<le> tou" and s2: "0 \<le> s2"
  shows "273 * t \<le> Tw_of tou s2 t"
proof -
  define B where "B = 1.6716 - 0.0006 * (Ta + t)"
  define R where "R = 0.00022425 * t - 0.00820525"
  define a where "a = 0.561 * B * tou"
  have B: "B \<le> - 4.5" using t by (simp add: B_def Ta_def field_simps)
  have R: "0.0002 * t \<le> R" "0 < R" using t by (simp_all add: R_def field_simps)
  have "B * tou \<le> (- 4.5) * tou"
    using B tou by (intro mult_right_mono) simp_all
  also have "\<dots> \<le> - 3600" using tou by linarith
  finally have "a \<le> - 1000" by (simp add: a_def field_simps)
  then have "\<bar>1000 :: real\<bar> \<le> \<bar>a\<bar>" by simp
  then have a2: "(1000 :: real) ^ 2 \<le> a ^ 2" by (simp only: abs_le_square_iff)
  have "600 * t = 3 * 1000 ^ 2 * (0.0002 * t)" by simp
  also have "\<dots> \<le> 3 * a ^ 2 * R"
    using a2 R t by (intro mult_mono) simp_all
  finally have Pc: "600 * t \<le> 3 * a ^ 2 * R" .
  have Pe: "0 \<le> (9.602 * (1 / 10 ^ 6) * ((B / R_Out) ^ 2) / R) * s2"
    using R(2) s2 by simp
  have "Tw_of tou s2 t = 0.455 * (3 * a ^ 2 * R + (9.602 * (1 / 10 ^ 6) * ((B / R_Out) ^ 2) / R) * s2) + Ta"
    by (simp only: Tw_of_def B_def R_def a_def)
  then show ?thesis
    using Pc Pe by (simp add: Ta_def field_simps)
qed

lemma hot_forever:
  fixes t tou s2 :: real
  assumes t: "10000 \<le> t" and tou: "800 \<le> tou" and s2: "0 \<le> s2"
  shows "\<exists>t'. 10000 \<le> t' \<and> (winding_next [tou] [s2] ^^ k) [t] = [t']"
proof (induction k)
  case 0
  then show ?case using t by simp
next
  case (Suc k)
  then obtain t' where t': "10000 \<le> t'" "(winding_next [tou] [s2] ^^ k) [t] = [t']"
    by blast
  have "273 * t' \<le> Tw_of tou s2 t'" by (rule hot_pass [OF t'(1) tou s2])
  then have "10000 \<le> Tw_of tou s2 t'" "\<not> \<bar>Tw_of tou s2 t' - t'\<bar> < 0.001"
    using t'(1) by (simp_all add: abs_less_iff)
  then show ?case
    by (simp add: t'(2) winding_next_single)
qed

lemma hot_never_converged:
  fixes t tou s2 :: real
  assumes t: "10000 \<le> t" and tou: "800 \<le> tou" and s2: "0 \<le> s2"
  shows "\<not> all_converged [tou] [s2] ((winding_next [tou] [s2] ^^ k) [t])"
proof -
  obtain t' where t': "10000 \<le> t'" "(winding_next [tou] [s2] ^^ k) [t] = [t']"
    using hot_forever [OF assms] by blast
  have "273 * t' \<le> Tw_of tou s2 t'" by (rule hot_pass [OF t'(1) tou s2])
  then have "\<not> \<bar>Tw_of tou s2 t' - t'\<bar> < 0.001"
    using t'(1) by (simp add: abs_less_iff)
  then show ?thesis by (simp add: t'(2) all_converged_single)
qed

lemma speed200_first: "28000 \<le> Tw_of (32011926837 / 40000000) 40000 295"
  by (simp add: Tw_of_def Ta_def R_Out_def power2_eq_square)

lemma speed200_never:
  "\<not> all_converged [32011926837 / 40000000] [40000]
       ((winding_next [32011926837 / 40000000] [40000] ^^ k) [295])"
proof -
  let ?tou = "32011926837 / 40000000 :: real"
  have first: "\<not> all_converged [?tou] [40000] [295]"
    "winding_next [?tou] [40000] [295] = [Tw_of ?tou 40000 295]"
    using speed200_first by (simp_all add: all_converged_single winding_next_single)
  show ?thesis
  proof (cases k)
    case 0
    then show ?thesis using first(1) by simp
  next
    case (Suc k')
    have "\<not> all_converged [?tou] [40000] ((winding_next [?tou] [40000] ^^ k') [Tw_of ?tou 40000 295])"
      using speed200_first by (intro hot_never_converged) simp_all
    then show ?thesis
      by (simp add: Suc funpow_swap1 first(2))
  qed
qed

lemma speed200_loop: "winding_loop [32011926837 / 40000000] [40000] [295] = None"
  by (rule winding_loop_None) (simp add: speed200_never)







lemma rest_pass:
  "\<not> \<bar>Tw_of (142614837 / 40000000) 0 295 - 295\<bar> < 0.001"
  "\<bar>Tw_of (142614837 / 40000000) 0 (Tw_of (142614837 / 40000000) 0 295)
      - Tw_of (142614837 / 40000000) 0 295\<bar> < 0.001"
  by (simp_all add: Tw_of_def Ta_def power2_eq_square)









lemma get_wind_data_length:
  "get_wind_data df ms = Inr (ws, wd) \<Longrightarrow> length ws = length ms \<and> length wd = length ms"
  by (auto simp: get_wind_data_def Let_def split: sum.splits dest: np_take_length)










lemma winding_pass_cond:
  "winding_pass tou speed2 T = (Pc, Pe, Tw, cond) \<Longrightarrow>
     cond = map2 (\<lambda>tw twi. \<bar>tw - twi\<bar> < 0.001) Tw T"
  unfolding winding_pass_def Let_def by (elim Pair_inject, hypsubst, rule refl)

lemma all_converged_elementwise:
  "all_converged tou speed2 T =
     (case winding_pass tou speed2 T of
        (Pc, Pe, Tw, cond) \<Rightarrow> \<forall>k<min (length Tw) (length T). \<bar>Tw ! k - T ! k\<bar> < 0.001)"
proof (cases "winding_pass tou speed2 T")
  case (fields Pc Pe Tw cond)
  show ?thesis
    by (simp add: all_converged_def fields winding_pass_cond [OF fields] list_all_length)
qed

lemma calculate_power_None:
  "calculate_power speed acceleration slope dir ws wd = None \<longleftrightarrow>
     winding_loop (wheel_torque speed slope) (map (\<lambda>s. s ^ 2) speed)
       (replicate (length speed) Ta) = None"
  by (simp add: calculate_power_def Let_def split: option.splits)

section \<open>The feasibility evaluation\<close>



section \<open>The objective\<close>

text \<open>
  C2: for a velocity profile of \<open>N\<close> speeds and \<open>N - 1\<close> segment lengths, the objective is
  the sum over the segments \<open>i\<close> of \<open>2 * dx[i] / (v[i] + v[i+1] + epsilon)\<close>, with
  \<open>epsilon = 10^-8\<close>.
\<close>

theorem objective_segment_sum:
  assumes "length v = Suc (length dx)"
  shows "objective v dx = (\<Sum>i<length dx. 2 * dx ! i / (v ! i + v ! (i + 1) + 1 / 10 ^ 8))"
  using objective_as_sum [OF assms] by (simp add: EPSILON_def)

theorem objective_segment_sum_witness:
  "length [0, 10, 0 :: real] = Suc (length [50, 30 :: real]) \<and>
   objective [0, 10, 0] [50, 30] = 2 * 50 / (0 + 10 + 1 / 10 ^ 8) + 2 * 30 / (10 + 0 + 1 / 10 ^ 8)"
  using objective_segment_sum [of "[0, 10, 0]" "[50, 30]"]
  by (simp add: lessThan_Suc numeral_2_eq_2)

text \<open>
  C8, as stated: with positive interior speeds and non-negative segment lengths, raising
  one interior speed strictly lowers the objective. It does not when both segments at that
  waypoint have length \<open>0\<close>: the objective stays where it was.
\<close>

theorem objective_flat_counterexample:
  "(0::real) \<le> [0, 0] ! 0 \<and> (0::real) \<le> [0, 0] ! 1 \<and> (0::real) < [0, 1, 0] ! 1 \<and>
   [0, 1, 0 :: real] ! 1 < 2 \<and> [0, 1, 0 :: real][1 := 2] = [0, 2, 0] \<and>
   objective [0, 1, 0] [0, 0] = 0 \<and> objective [0, 2, 0] [0, 0] = 0 \<and>
   \<not> objective ([0, 1, 0][1 := 2]) [0, 0] < objective [0, 1, 0] [0, 0]"
  by (simp add: objective_def)

text \<open>
  C8, amended: for a profile with non-negative end speeds, positive interior speeds and
  non-negative segment lengths, every denominator of the objective is positive (no term
  divides by zero, before and after the change), raising one interior speed never raises
  the objective, and lowers it strictly when one of the two segments at that waypoint has
  positive length.
\<close>

theorem objective_monotone:
  assumes len: "length v = Suc (length dx)"
    and j: "0 < j" "j < length dx"
    and ends: "0 \<le> v ! 0" "0 \<le> v ! length dx"
    and interior: "\<forall>i. 0 < i \<and> i < length dx \<longrightarrow> 0 < v ! i"
    and dx: "\<forall>i<length dx. 0 \<le> dx ! i"
    and w: "v ! j < w"
  shows "(\<forall>i<length dx. 0 < v ! i + v ! (i + 1) + EPSILON) \<and>
         (\<forall>i<length dx. 0 < v[j := w] ! i + v[j := w] ! (i + 1) + EPSILON) \<and>
         objective (v[j := w]) dx \<le> objective v dx \<and>
         (0 < dx ! (j - 1) \<or> 0 < dx ! j \<longrightarrow> objective (v[j := w]) dx < objective v dx)"
proof -
  let ?n = "length dx"
  let ?v' = "v[j := w]"
  let ?f = "\<lambda>u i. 2 * dx ! i / (u ! i + u ! (i + 1) + EPSILON)"
  have eps: "0 < EPSILON" by (simp add: EPSILON_def)
  have nonneg: "0 \<le> v ! i" if "i \<le> ?n" for i
  proof (cases "i = 0 \<or> i = ?n")
    case True
    then show ?thesis using ends by auto
  next
    case False
    then have "0 < i \<and> i < ?n" using that by auto
    then show ?thesis using interior by (simp add: less_imp_le)
  qed
  have upd: "?v' ! i = (if i = j then w else v ! i)" if "i \<le> ?n" for i
    using that len by (simp add: nth_list_update)
  have ge: "v ! i \<le> ?v' ! i" if "i \<le> ?n" for i
    using upd [OF that] w by simp
  have pos: "0 < v ! i + v ! (i + 1) + EPSILON" if "i < ?n" for i
    using nonneg [of i] nonneg [of "i + 1"] that eps by simp
  have pos': "0 < ?v' ! i + ?v' ! (i + 1) + EPSILON" if "i < ?n" for i
    using pos [OF that] ge [of i] ge [of "i + 1"] that by simp
  have den_le: "v ! i + v ! (i + 1) + EPSILON \<le> ?v' ! i + ?v' ! (i + 1) + EPSILON" if "i < ?n" for i
    using ge [of i] ge [of "i + 1"] that by simp
  have term_le: "?f ?v' i \<le> ?f v i" if "i < ?n" for i
    using dx that by (intro frac_le pos den_le) simp_all
  have sums: "objective ?v' dx = (\<Sum>i<?n. ?f ?v' i)" "objective v dx = (\<Sum>i<?n. ?f v i)"
    using len by (simp_all add: objective_as_sum)
  have mono: "objective ?v' dx \<le> objective v dx"
    unfolding sums by (rule sum_mono, rule term_le, simp)
  have strict: "objective ?v' dx < objective v dx" if "0 < dx ! (j - 1) \<or> 0 < dx ! j"
  proof -
    from that obtain i where i: "i < ?n" "0 < dx ! i" "i = j - 1 \<or> i = j"
      using j by (metis less_imp_diff_less)
    have "v ! i + v ! (i + 1) + EPSILON < ?v' ! i + ?v' ! (i + 1) + EPSILON"
    proof (cases "i = j")
      case True
      then show ?thesis using upd [of j] upd [of "j + 1"] j w by simp
    next
      case False
      then have "i + 1 = j" using i(3) j(1) by simp
      then show ?thesis using upd [of "i"] upd [of "i + 1"] j w False by simp
    qed
    then have "?f ?v' i < ?f v i"
      using i(1,2) by (intro frac_less2 pos) simp_all
    then have "\<exists>a\<in>{..<?n}. ?f ?v' a < ?f v a"
      using i(1) by blast
    moreover have "\<forall>a\<in>{..<?n}. ?f ?v' a \<le> ?f v a"
      using term_le by blast
    ultimately show ?thesis
      unfolding sums by (intro sum_strict_mono_ex1 finite_lessThan)
  qed
  show ?thesis
    using pos pos' mono strict by blast
qed

theorem objective_monotone_witness:
  "objective ([0, 10, 0][1 := 20]) [50, 30] < objective [0, 10, 0] [50, 30] \<and>
   objective ([0, 10, 0][1 := 20]) [0, 0] \<le> objective [0, 10, 0] [0, 0]"
proof -
  have int: "\<forall>i. 0 < i \<and> i < length [d, e :: real] \<longrightarrow> 0 < [0, 10, 0 :: real] ! i" for d e
    by (auto simp: less_Suc_eq)
  have d1: "\<forall>i<length [50, 30 :: real]. 0 \<le> [50, 30 :: real] ! i"
    by (auto simp: less_Suc_eq)
  have d2: "\<forall>i<length [0, 0 :: real]. 0 \<le> [0, 0 :: real] ! i"
    by (auto simp: less_Suc_eq)
  show ?thesis
    using objective_monotone [of "[0, 10, 0]" "[50, 30]" 1 20, OF _ _ _ _ _ int d1]
      objective_monotone [of "[0, 10, 0]" "[0, 0]" 1 20, OF _ _ _ _ _ int d2]
    by simp
qed

section \<open>Bounds and initial guess\<close>

text \<open>
  C9: for a waypoint count \<open>N \<ge> 2\<close> the bounds are \<open>N\<close> pairs, \<open>(0, 0)\<close> at both ends and
  \<open>(0.01, MaxVelocity)\<close> at every interior position; the initial guess has \<open>N\<close> entries,
  \<open>0\<close> at both ends and \<open>InitialGuessVelocity\<close> at every interior position; the driver
  hands these two to the solver for a route of \<open>N - 1\<close> segments.
\<close>

theorem bounds_and_initial_guess:
  assumes "2 \<le> N"
  shows "length (get_bounds N) = nat N \<and>
         get_bounds N ! 0 = (0, 0) \<and>
         get_bounds N ! (nat N - 1) = (0, 0) \<and>
         (\<forall>k. 0 < k \<and> k < nat N - 1 \<longrightarrow> get_bounds N ! k = (0.01, MaxVelocity)) \<and>
         (\<exists>g. initial_guess N = Inr g \<and> length g = nat N \<and> g ! 0 = 0 \<and> g ! (nat N - 1) = 0 \<and>
           (\<forall>k. 0 < k \<and> k < nat N - 1 \<longrightarrow> g ! k = InitialGuessVelocity) \<and>
           (\<forall>dx. int (length dx) + 1 = N \<longrightarrow> run_optimise_setup dx = Inr (g, get_bounds N)))"
proof -
  define m where "m = nat (N - 2)"
  have m: "nat N = Suc (Suc m)" "nat (N - 2) = m"
    using assms unfolding m_def by linarith+
  have "length (get_bounds N) = nat N" by (simp add: get_bounds_def m)
  moreover have "get_bounds N ! 0 = (0, 0)" by (simp add: get_bounds_def)
  moreover have "get_bounds N ! (nat N - 1) = (0, 0)"
    by (simp add: get_bounds_def m nth_append)
  moreover have "\<forall>k. 0 < k \<and> k < nat N - 1 \<longrightarrow> get_bounds N ! k = (0.01, MaxVelocity)"
    by (auto simp: get_bounds_def m nth_append nth_Cons')
  moreover have "\<exists>g. initial_guess N = Inr g \<and> length g = nat N \<and> g ! 0 = 0 \<and> g ! (nat N - 1) = 0 \<and>
           (\<forall>k. 0 < k \<and> k < nat N - 1 \<longrightarrow> g ! k = InitialGuessVelocity) \<and>
           (\<forall>dx. int (length dx) + 1 = N \<longrightarrow> run_optimise_setup dx = Inr (g, get_bounds N))"
    using assms
    by (auto simp: initial_guess_def run_optimise_setup_def m nth_append nth_Cons')
  ultimately show ?thesis by blast
qed

theorem bounds_and_initial_guess_witness:
  "(2::int) \<le> 4 \<and> get_bounds 4 = [(0, 0), (0.01, 35), (0.01, 35), (0, 0)] \<and>
   initial_guess 4 = Inr [0, 32, 32, 0] \<and>
   run_optimise_setup [100, 100, 100] = Inr ([0, 32, 32, 0], get_bounds 4) \<and>
   length (get_bounds 4) = 4 \<and> get_bounds 4 ! 0 = (0, 0) \<and> get_bounds 4 ! 3 = (0, 0)"
  using bounds_and_initial_guess [of 4]
  by (simp add: get_bounds_def initial_guess_def run_optimise_setup_def MaxVelocity_def
      InitialGuessVelocity_def numeral_2_eq_2)

section \<open>The environment lookups\<close>

text \<open>
  C6: the lookups take the bucket \<open>floor ((m + offset) / 5)\<close> of every minute value and read
  the series at that position, with no interpolation: the solar lookup returns the
  irradiance there times \<open>PanelArea * PanelEfficiency\<close>, the wind lookup the pair of wind
  speed and wind direction there. Stated for the buckets that are positions of the series.
\<close>

theorem lookup_at_bucket:
  assumes "\<forall>m\<in>set ms. 0 \<le> bucket m \<and> bucket m < int (length (ghi df))"
    and "\<forall>m\<in>set ms. bucket m < int (length (wind_speed df))"
    and "\<forall>m\<in>set ms. bucket m < int (length (wind_direction df))"
  shows "(\<forall>m. bucket m = \<lfloor>(m + INIT_TIME) / 5\<rfloor>) \<and>
         get_solar_power df ms =
           Inr (map (\<lambda>m. ghi df ! nat (bucket m) * (PanelArea * PanelEfficiency)) ms) \<and>
         get_wind_data df ms =
           Inr (map (\<lambda>m. wind_speed df ! nat (bucket m)) ms,
                map (\<lambda>m. wind_direction df ! nat (bucket m)) ms)"
proof -
  have g: "np_take (ghi df) (map bucket ms) = Inr (map (\<lambda>m. ghi df ! nat (bucket m)) ms)"
    using assms(1) by (subst np_take_ok) (auto simp: o_def)
  have s: "np_take (wind_speed df) (map bucket ms) =
             Inr (map (\<lambda>m. wind_speed df ! nat (bucket m)) ms)"
    using assms(1,2) by (subst np_take_ok) (auto simp: o_def)
  have d: "np_take (wind_direction df) (map bucket ms) =
             Inr (map (\<lambda>m. wind_direction df ! nat (bucket m)) ms)"
    using assms(1,3) by (subst np_take_ok) (auto simp: o_def)
  show ?thesis
    by (simp add: get_solar_power_def get_wind_data_def g s d NET_PANEL_FACTOR_def o_def
        bucket_def STEP_def)
qed

theorem lookup_at_bucket_witness:
  "bucket 7 = 13 \<and>
   get_solar_power \<lparr>ghi = replicate 13 0 @ [800, 900], wind_speed = replicate 13 0 @ [3, 4],
       wind_direction = replicate 13 0 @ [1, 2]\<rparr> [7, 12] = Inr [800 * (4.9 * 0.21), 900 * (4.9 * 0.21)] \<and>
   get_wind_data \<lparr>ghi = replicate 13 0 @ [800, 900], wind_speed = replicate 13 0 @ [3, 4],
       wind_direction = replicate 13 0 @ [1, 2]\<rparr> [7, 12] = Inr ([3, 4], [1, 2])"
proof -
  have b: "bucket 7 = 13" "bucket 12 = 14"
    by (simp_all add: bucket_def INIT_TIME_val STEP_def floor_eq_iff)
  show ?thesis
    using lookup_at_bucket [of "[7, 12]" "\<lparr>ghi = replicate 13 0 @ [800, 900],
       wind_speed = replicate 13 0 @ [3, 4], wind_direction = replicate 13 0 @ [1, 2]\<rparr>"]
    by (simp add: b nth_append PanelArea_def PanelEfficiency_def INIT_TIME_val floor_eq_iff)
qed

text \<open>
  C4, as stated: a bucket outside the bounds of the series makes the lookups fail. It does
  not for a negative bucket down to minus the length of the series: minute \<open>-65\<close> has
  bucket \<open>-1\<close>, and both lookups return the last entry of the series.
\<close>

theorem lookup_wraps_counterexample:
  "bucket (- 65) = - 1 \<and>
   \<not> (0 \<le> bucket (- 65) \<and> bucket (- 65) < int (length [100, 200, 300 :: real])) \<and>
   get_solar_power \<lparr>ghi = [100, 200, 300], wind_speed = [4, 5, 6], wind_direction = [7, 8, 9]\<rparr>
     [- 65] = Inr [300 * NET_PANEL_FACTOR] \<and>
   get_wind_data \<lparr>ghi = [100, 200, 300], wind_speed = [4, 5, 6], wind_direction = [7, 8, 9]\<rparr>
     [- 65] = Inr ([6], [9])"
proof -
  have b: "bucket (- 65) = - 1"
    by (simp add: bucket_def INIT_TIME_val STEP_def floor_eq_iff)
  show ?thesis
    by (simp add: b get_solar_power_def get_wind_data_def np_get_def)
qed

text \<open>
  C4, amended: with \<open>n\<close> the length of the series, a minute value whose bucket is below
  \<open>-n\<close> or at least \<open>n\<close> makes both lookups raise IndexError; when every bucket lies in
  \<open>[-n, n)\<close> the lookups return, and a negative bucket \<open>b\<close> reads position \<open>n + b\<close>.
\<close>

theorem lookup_error_window:
  fixes df :: env_series and ms :: "real list"
  defines "n \<equiv> int (length (ghi df))"
  assumes "length (wind_speed df) = length (ghi df)"
    and "length (wind_direction df) = length (ghi df)"
  shows "((\<exists>m\<in>set ms. bucket m < - n \<or> n \<le> bucket m) \<longrightarrow>
            get_solar_power df ms = Inl IndexError \<and> get_wind_data df ms = Inl IndexError) \<and>
         ((\<forall>m\<in>set ms. - n \<le> bucket m \<and> bucket m < n) \<longrightarrow>
            get_solar_power df ms =
              Inr (map (\<lambda>m. ghi df ! nat (if bucket m < 0 then n + bucket m else bucket m)
                            * NET_PANEL_FACTOR) ms) \<and>
            get_wind_data df ms =
              Inr (map (\<lambda>m. wind_speed df ! nat (if bucket m < 0 then n + bucket m else bucket m)) ms,
                   map (\<lambda>m. wind_direction df ! nat (if bucket m < 0 then n + bucket m else bucket m)) ms))"
proof (intro conjI impI)
  assume bad: "\<exists>m\<in>set ms. bucket m < - n \<or> n \<le> bucket m"
  then have "np_take (ghi df) (map bucket ms) = Inl IndexError"
    by (intro np_take_fail) (auto simp: n_def)
  then show "get_solar_power df ms = Inl IndexError"
    by (simp add: get_solar_power_def)
  from bad have "np_take (wind_speed df) (map bucket ms) = Inl IndexError"
    by (intro np_take_fail) (auto simp: n_def assms(2))
  then show "get_wind_data df ms = Inl IndexError"
    by (simp add: get_wind_data_def)
next
  assume ok: "\<forall>m\<in>set ms. - n \<le> bucket m \<and> bucket m < n"
  then have g: "np_take (ghi df) (map bucket ms) =
      Inr (map (\<lambda>m. ghi df ! nat (if bucket m < 0 then n + bucket m else bucket m)) ms)"
    by (subst np_take_ok) (auto simp: n_def o_def)
  from ok have s: "np_take (wind_speed df) (map bucket ms) =
      Inr (map (\<lambda>m. wind_speed df ! nat (if bucket m < 0 then n + bucket m else bucket m)) ms)"
    by (subst np_take_ok) (auto simp: n_def o_def assms(2))
  from ok have d: "np_take (wind_direction df) (map bucket ms) =
      Inr (map (\<lambda>m. wind_direction df ! nat (if bucket m < 0 then n + bucket m else bucket m)) ms)"
    by (subst np_take_ok) (auto simp: n_def o_def assms(3))
  show "get_solar_power df ms =
      Inr (map (\<lambda>m. ghi df ! nat (if bucket m < 0 then n + bucket m else bucket m)
                            * NET_PANEL_FACTOR) ms)"
    by (simp add: get_solar_power_def g o_def)
  show "get_wind_data df ms =
      Inr (map (\<lambda>m. wind_speed df ! nat (if bucket m < 0 then n + bucket m else bucket m)) ms,
           map (\<lambda>m. wind_direction df ! nat (if bucket m < 0 then n + bucket m else bucket m)) ms)"
    by (simp add: get_wind_data_def s d)
qed

theorem lookup_error_window_witness:
  "bucket (- 80) = - 4 \<and> bucket 15 = 15 \<and> bucket (- 70) = - 2 \<and>
   get_solar_power \<lparr>ghi = [100, 200, 300], wind_speed = [4, 5, 6], wind_direction = [7, 8, 9]\<rparr>
     [- 80] = Inl IndexError \<and>
   get_wind_data \<lparr>ghi = [100, 200, 300], wind_speed = [4, 5, 6], wind_direction = [7, 8, 9]\<rparr>
     [15] = Inl IndexError \<and>
   get_solar_power \<lparr>ghi = [100, 200, 300], wind_speed = [4, 5, 6], wind_direction = [7, 8, 9]\<rparr>
     [- 70] = Inr [200 * NET_PANEL_FACTOR]"
proof -
  have b: "bucket (- 80) = - 4" "bucket 15 = 15" "bucket (- 70) = - 2"
    by (simp_all add: bucket_def INIT_TIME_val STEP_def floor_eq_iff)
  show ?thesis
    using lookup_error_window [of "\<lparr>ghi = [100, 200, 300], wind_speed = [4, 5, 6],
              wind_direction = [7, 8, 9]\<rparr>" "[- 80]"]
      lookup_error_window [of "\<lparr>ghi = [100, 200, 300], wind_speed = [4, 5, 6],
              wind_direction = [7, 8, 9]\<rparr>" "[15]"]
      lookup_error_window [of "\<lparr>ghi = [100, 200, 300], wind_speed = [4, 5, 6],
              wind_direction = [7, 8, 9]\<rparr>" "[- 70]"]
    by (simp add: b)
qed

section \<open>The power model\<close>

text \<open>
  C3, as stated: for every input the temperature iteration ends, converged or with an error
  at an iteration cap. The loop has no cap and no error exit: at a speed of 200 m/s on flat
  ground the temperature of the first pass is above 28000, it grows from pass to pass, and
  the power model never returns.
\<close>

theorem unbounded_iteration_counterexample:
  "calculate_power [200] [0] [0] [0] [0] [0] = None"
  using speed200_loop
  by (simp add: calculate_power_def wheel_torque_def frictional_tou_val drag_coeff_wR2_val Ta_def)

text \<open>
  C3, amended: the iteration has no cap and raises nothing. It is left at the first pass
  in which the temperature change of every segment is below \<open>0.001\<close>, with the temperature
  that entered this pass and the losses of this pass, unchanged; when no pass has this
  property the loop is never left, and the power model returns nothing exactly then.
\<close>

theorem winding_loop_exits:
  "((\<exists>k. all_converged tou speed2 ((winding_next tou speed2 ^^ k) T)) \<longrightarrow>
      winding_loop tou speed2 T =
        Some (winding_exit tou speed2
          ((winding_next tou speed2 ^^
             (LEAST k. all_converged tou speed2 ((winding_next tou speed2 ^^ k) T))) T))) \<and>
   ((\<forall>k. \<not> all_converged tou speed2 ((winding_next tou speed2 ^^ k) T)) \<longrightarrow>
      winding_loop tou speed2 T = None) \<and>
   (all_converged tou speed2 T \<longleftrightarrow>
      (case winding_pass tou speed2 T of
         (Pc, Pe, Tw, cond) \<Rightarrow> \<forall>k<min (length Tw) (length T). \<bar>Tw ! k - T ! k\<bar> < 0.001)) \<and>
   (winding_exit tou speed2 T =
      (case winding_pass tou speed2 T of (Pc, Pe, Tw, cond) \<Rightarrow> (T, Pc, Pe))) \<and>
   (calculate_power speed acceleration slope dir ws wd = None \<longleftrightarrow>
      winding_loop (wheel_torque speed slope) (map (\<lambda>s. s ^ 2) speed)
        (replicate (length speed) Ta) = None)"
proof (intro conjI impI)
  assume ex: "\<exists>k. all_converged tou speed2 ((winding_next tou speed2 ^^ k) T)"
  let ?k = "LEAST k. all_converged tou speed2 ((winding_next tou speed2 ^^ k) T)"
  have a: "all_converged tou speed2 ((winding_next tou speed2 ^^ ?k) T)"
    using ex by (rule LeastI_ex)
  have b: "\<forall>i<?k. \<not> all_converged tou speed2 ((winding_next tou speed2 ^^ i) T)"
    using not_less_Least by blast
  show "winding_loop tou speed2 T = Some (winding_exit tou speed2 ((winding_next tou speed2 ^^ ?k) T))"
    by (rule winding_loop_first [OF a b])
next
  assume "\<forall>k. \<not> all_converged tou speed2 ((winding_next tou speed2 ^^ k) T)"
  then show "winding_loop tou speed2 T = None" by (rule winding_loop_None)
next
  show "all_converged tou speed2 T \<longleftrightarrow>
      (case winding_pass tou speed2 T of
         (Pc, Pe, Tw, cond) \<Rightarrow> \<forall>k<min (length Tw) (length T). \<bar>Tw ! k - T ! k\<bar> < 0.001)"
    by (rule all_converged_elementwise)
next
  show "winding_exit tou speed2 T =
      (case winding_pass tou speed2 T of (Pc, Pe, Tw, cond) \<Rightarrow> (T, Pc, Pe))"
    by (simp add: winding_exit_def)
next
  show "calculate_power speed acceleration slope dir ws wd = None \<longleftrightarrow>
      winding_loop (wheel_torque speed slope) (map (\<lambda>s. s ^ 2) speed)
        (replicate (length speed) Ta) = None"
    by (rule calculate_power_None)
qed

theorem winding_loop_exits_witness:
  "(\<exists>r. winding_loop [142614837 / 40000000] [0] [295] = Some r) \<and>
   winding_loop [32011926837 / 40000000] [40000] [295] = None"
proof -
  let ?tou = "142614837 / 40000000 :: real"
  have "all_converged [?tou] [0] ((winding_next [?tou] [0] ^^ Suc 0) [295])"
    using rest_pass by (simp add: all_converged_single winding_next_single)
  then have ex: "\<exists>k. all_converged [?tou] [0] ((winding_next [?tou] [0] ^^ k) [295])"
    by blast
  have never: "\<forall>k. \<not> all_converged [32011926837 / 40000000] [40000]
                 ((winding_next [32011926837 / 40000000] [40000] ^^ k) [295])"
    using speed200_never by blast
  show ?thesis
    using winding_loop_exits [of "[?tou]" "[0]" "[295]"] ex
      winding_loop_exits [of "[32011926837 / 40000000]" "[40000]" "[295]"] never
    by blast
qed



text \<open>
  C7: the wheel torque of the power model is \<open>frictional_tou * cos slope\<close> plus a drag
  torque proportional to the squared speed; the wind speed and wind direction arguments
  have no effect on the result of the power model.
\<close>

theorem torque_ignores_wind:
  "calculate_power speed acceleration slope dir ws wd =
     calculate_power speed acceleration slope dir ws' wd' \<and>
   (length slope = length speed \<longrightarrow>
      (\<forall>k<length speed. wheel_torque speed slope ! k =
         frictional_tou * cos (slope ! k) + drag_coeff_wR2 * (speed ! k) ^ 2)) \<and>
   (\<forall>P P_out. calculate_power speed acceleration slope dir ws wd = Some (P, P_out) \<longrightarrow>
      P_out = map2 (\<lambda>t s. t * s / R_Out) (wheel_torque speed slope) speed)"
proof (intro conjI impI allI)
  show "calculate_power speed acceleration slope dir ws wd =
     calculate_power speed acceleration slope dir ws' wd'"
    by (simp add: calculate_power_def)
next
  fix k assume "length slope = length speed" "k < length speed"
  then show "wheel_torque speed slope ! k =
         frictional_tou * cos (slope ! k) + drag_coeff_wR2 * (speed ! k) ^ 2"
    by (simp add: wheel_torque_def)
next
  fix P P_out
  assume "calculate_power speed acceleration slope dir ws wd = Some (P, P_out)"
  then show "P_out = map2 (\<lambda>t s. t * s / R_Out) (wheel_torque speed slope) speed"
    by (auto simp: calculate_power_def Let_def split: option.splits)
qed

theorem torque_ignores_wind_witness:
  "calculate_power [10] [0] [0] [0] [5] [1] = calculate_power [10] [0] [0] [0] [0] [0] \<and>
   wheel_torque [10] [0] ! 0 = frictional_tou + drag_coeff_wR2 * 100"
  using torque_ignores_wind [of "[10]" "[0]" "[0]" "[0]" "[5]" "[1]" "[0]" "[0]"]
  by simp

section \<open>Reporter and constraint evaluator\<close>

text \<open>
  C10: for the same net power, solar power and segment times, the battery levels of the
  reporter (initial charge minus the difference of the cumulative sums of consumption and
  gain) are the battery profile of the constraint evaluator plus \<open>SafeBatteryLevel\<close>, that
  is the initial charge minus the cumulative sum of \<open>(P - SolP) * dt\<close> over 3600.
\<close>

theorem battery_orders_coincide:
  assumes "length P = length dt" and "length SolP = length dt"
  shows "reporter_battery_levels P SolP dt =
           map (\<lambda>b. b + SafeBatteryLevel) (constraint_battery_profile P SolP dt) \<and>
         reporter_battery_levels P SolP dt =
           map (\<lambda>c. InitialBatteryCapacity - c / 3600) (cumsum (map2 (*) (map2 (-) P SolP) dt))"
proof -
  let ?C = "cumsum (map2 (*) (map2 (-) P SolP) dt)"
  have net: "map2 (-) (cumsum (map2 (\<lambda>p t. p * t / 3600) P dt))
                     (cumsum (map2 (\<lambda>s t. s * t / 3600) SolP dt)) = map (\<lambda>c. c / 3600) ?C"
    using cumsum_from_diff [OF assms, of 0 0] by (simp add: cumsum_def)
  have rep: "reporter_battery_levels P SolP dt =
               map (\<lambda>e. InitialBatteryCapacity - e) (map (\<lambda>c. c / 3600) ?C)"
    unfolding reporter_battery_levels_def reporter_energy_def Let_def snd_conv net ..
  have con: "constraint_battery_profile P SolP dt =
               map (\<lambda>e. InitialBatteryCapacity - e - SafeBatteryLevel) (map (\<lambda>c. c / 3600) ?C)"
    unfolding constraint_battery_profile_def Let_def ..
  show ?thesis
    unfolding rep con by (simp add: o_def)
qed

theorem battery_orders_coincide_witness:
  "reporter_battery_levels [900, 1800] [360, 720] [10, 20] =
     map (\<lambda>b. b + SafeBatteryLevel) (constraint_battery_profile [900, 1800] [360, 720] [10, 20]) \<and>
   reporter_battery_levels [900, 1800] [360, 720] [10, 20] = [3055 - 3 / 2, 3055 - 15 / 2]"
  using battery_orders_coincide [of "[900, 1800]" "[10, 20]" "[360, 720]"]
  by (simp add: cumsum_def InitialBatteryCapacity_def BatteryCapacity_def
      constraint_battery_profile_def)

end
